theory Spec2Isabelle
  imports Main
begin

section \<open>Python values used by \<open>aldryn_forms/admin.py\<close>\<close>

text \<open>
  Exceptions are values: a computation that may raise returns \<open>exn + 'a\<close>, with
  \<open>Inl\<close> carrying the exception.
\<close>

datatype exn = TypeError | IndexError | AttributeError | Exception string

text \<open>
  List indexing \<open>xs[i]\<close> with a non-negative index (the only indices of this file come
  from \<open>enumerate\<close> and the literal \<open>0\<close>): out of range raises \<open>IndexError\<close>.
\<close>

definition getitem :: "'a list \<Rightarrow> nat \<Rightarrow> exn + 'a" where
  "getitem xs i = (if i < length xs then Inr (xs ! i) else Inl IndexError)"

subsection \<open>Decimal formatting, \<open>u'%s %s' % (label, n)\<close>\<close>

definition digit_char :: "nat \<Rightarrow> char" where
  "digit_char d = ''0123456789'' ! d"

function str_nat :: "nat \<Rightarrow> string" where
  "str_nat n = (if n < 10 then [digit_char n] else str_nat (n div 10) @ [digit_char (n mod 10)])"
  by pat_completeness auto
termination
  by (relation "measure id") auto

declare str_nat.simps [simp del]

definition str_int :: "int \<Rightarrow> string" where
  "str_int i = (if i < 0 then CHR ''-'' # str_nat (nat (- i)) else str_nat (nat i))"

definition format_label :: "string \<Rightarrow> int \<Rightarrow> string" where
  "format_label lbl n = lbl @ '' '' @ str_int n"

section \<open>Data model\<close>

text \<open>
  A serialized form field as \<open>get_form_data()\<close> returns it: the file reads its
  \<open>label\<close> and its \<open>value\<close> (here \<open>val\<close>). A submission record carries the timestamp \<open>sent_at\<close>,
  the locale \<open>language\<close> and the field sequence.
\<close>

record form_field =
  label :: string
  val :: string

record submission =
  sent_at :: int
  language :: string
  get_form_data :: "form_field list"

subsection \<open>\<open>SortedDict\<close>: a dictionary that remembers insertion order\<close>

text \<open>
  Assigning to a new key appends it to the key order; assigning to a key that is present
  replaces its value and leaves its place in the order unchanged.
\<close>

type_synonym 'v sorted_dict = "(string \<times> 'v) list"

definition contains :: "'v sorted_dict \<Rightarrow> string \<Rightarrow> bool" where
  "contains d k = (k \<in> set (map fst d))"

fun setitem :: "'v sorted_dict \<Rightarrow> string \<Rightarrow> 'v \<Rightarrow> 'v sorted_dict" where
  "setitem [] k v = [(k, v)]"
| "setitem (p # ps) k v = (if fst p = k then (k, v) # ps else p # setitem ps k v)"

text \<open>\<open>defaultdict(lambda: 1)\<close>: a missing key reads as 1.\<close>

type_synonym occurrences = "string \<rightharpoonup> int"

definition dd_getitem :: "occurrences \<Rightarrow> string \<Rightarrow> int" where
  "dd_getitem occ k = (case occ k of None \<Rightarrow> 1 | Some c \<Rightarrow> c)"

section \<open>The column accessor \<open>clean_data\<close>\<close>

text \<open>
  \<open>clean_data label position\<close> is the closure \<open>_clean_data\<close>; applied to a
  submission it reads the field at \<open>position\<close>, catching \<open>IndexError\<close> only, and
  returns the field's value when the label there equals \<open>label\<close>, else the empty string.
  A field tuple is never falsy, so \<open>field and ...\<close> tests that a field was found.
\<close>

definition clean_data :: "string \<Rightarrow> nat \<Rightarrow> submission \<Rightarrow> exn + string" where
  "clean_data lbl position obj =
     (case (case getitem (get_form_data obj) position of
              Inr f \<Rightarrow> Inr (Some f)
            | Inl IndexError \<Rightarrow> Inr None
            | Inl e \<Rightarrow> Inl e) of
        Inl e \<Rightarrow> Inl e
      | Inr None \<Rightarrow> Inr ''''
      | Inr (Some f) \<Rightarrow> (if label f = lbl then Inr (val f) else Inr ''''))"

section \<open>The export header builder\<close>

text \<open>
  A header maps a column name either to a callable (an accessor) or to the name of an
  attribute of the submission (\<open>'language'\<close>, \<open>'sent_at'\<close>).
\<close>

datatype header_value = Callable "submission \<Rightarrow> exn + string" | Attr string

type_synonym headers = "header_value sorted_dict"

text \<open>
  Lines 136 to 140: the column name of a field. When the label is already a key of
  \<open>headers\<close> the label's counter is incremented and appended to the label.
\<close>

definition disambiguate :: "occurrences \<Rightarrow> headers \<Rightarrow> string \<Rightarrow> occurrences \<times> string" where
  "disambiguate occ hs lbl =
     (if contains hs lbl
      then (let occ' = occ(lbl \<mapsto> dd_getitem occ lbl + 1)
            in (occ', format_label lbl (dd_getitem occ' lbl)))
      else (occ, lbl))"

text \<open>One iteration of \<open>for position, field in enumerate(fields)\<close>.\<close>

definition header_step :: "nat \<times> form_field \<Rightarrow> occurrences \<times> headers \<Rightarrow> occurrences \<times> headers" where
  "header_step pf st =
     (case pf of (position, fld) \<Rightarrow> case st of (occ, hs) \<Rightarrow>
        (case disambiguate occ hs (label fld) of (occ', lbl) \<Rightarrow>
           (occ', setitem hs lbl (Callable (clean_data (label fld) position)))))"

text \<open>
  The loop, started at position \<open>n\<close> in a given state; \<open>header_loop\<close> is the loop of
  the source, started at position 0 with no occurrence counted and no header set.
\<close>

definition header_loop_from :: "nat \<Rightarrow> form_field list \<Rightarrow> occurrences \<times> headers \<Rightarrow> occurrences \<times> headers" where
  "header_loop_from n flds st = fold header_step (enumerate n flds) st"

definition header_loop :: "form_field list \<Rightarrow> occurrences \<times> headers" where
  "header_loop flds = header_loop_from 0 flds (Map.empty, [])"

text \<open>
  Lines 128 to 144: the headers passed to the export call. \<open>ugettext\<close> is the
  translation function of the active locale.
\<close>

definition build_headers :: "(string \<Rightarrow> string) \<Rightarrow> form_field list \<Rightarrow> headers" where
  "build_headers ugettext flds =
     (let hs = snd (header_loop flds);
          hs = setitem hs (ugettext ''Language'') (Attr ''language'');
          hs = setitem hs (ugettext ''Submitted on'') (Attr ''sent_at'')
      in hs)"

text \<open>
  The column name computed for the field at position \<open>p\<close>: the value of \<open>label\<close> at
  line 141 in iteration \<open>p\<close>.
\<close>

definition column_header :: "form_field list \<Rightarrow> nat \<Rightarrow> string" where
  "column_header flds p =
     (case header_loop (take p flds) of (occ, hs) \<Rightarrow>
        snd (disambiguate occ hs (label (flds ! p))))"

section \<open>The model admins and the export view\<close>

text \<open>
  The two models and the admin classes registered for them at the end of the file.
\<close>

datatype model = FormData | FormSubmission

datatype admin_class = FormDataAdmin | FormSubmissionAdmin

definition registry :: "(model \<times> admin_class) list" where
  "registry = [(FormData, FormDataAdmin), (FormSubmission, FormSubmissionAdmin)]"

text \<open>
  \<open>model._meta\<close>: \<open>model_name\<close> is absent on old framework versions, where reading
  it raises \<open>AttributeError\<close> and \<open>module_name\<close> is read instead.
\<close>

record model_meta =
  app_label :: string
  model_name :: "string option"
  module_name' :: string

record request =
  POST :: "(string \<times> string) list"

text \<open>
  A queryset is the model it ranges over and the rows it matches. The filter form is seen
  through what the view asks of it: validity, the queryset it selects from the stored
  records, the file name, and its errors.
\<close>

record queryset =
  model :: model
  rows :: "submission list"

record filter_form =
  is_valid :: bool
  get_queryset :: "submission list \<Rightarrow> queryset"
  get_filename :: string
  errors :: "(string \<times> string) list"

record model_admin =
  admin_class :: admin_class
  meta :: model_meta
  export_form :: "(string \<times> string) list option \<Rightarrow> filter_form"

text \<open>The keyword arguments bound by \<open>partial(export, ...)\<close>.\<close>

record export_args =
  kw_request :: request
  kw_queryset :: queryset
  kw_model :: model
  kw_headers :: headers
  kw_filename :: string

text \<open>
  The state a view can change: the stored submission records, the messages queued for
  the user, and the calls made to the export view of the spreadsheet library, each with
  its extra keyword argument.
\<close>

datatype level = DEBUG | INFO | SUCCESS | WARNING | ERROR

record world =
  records :: "submission list"
  messages :: "(level \<times> string) list"
  export_calls :: "((string \<times> string) \<times> export_args) list"

text \<open>
  The collaborators outside this file: the translation function and the export view of
  the spreadsheet library, which returns a response of its own or raises.
\<close>

record 'r env =
  ugettext :: "string \<Rightarrow> string"
  export :: "export_args \<Rightarrow> string \<times> string \<Rightarrow> exn + 'r"

text \<open>
  The template context of the re-rendered form, as far as it is computed from the
  arguments (\<open>media\<close>, \<open>root_path\<close> and \<open>current_app\<close> come from the framework).
\<close>

record template_context =
  ctx_errors :: "(string \<times> string) list"
  ctx_adminform :: filter_form
  ctx_has_change_permission :: bool
  ctx_opts :: model_meta
  ctx_app_label :: string
  ctx_original :: string

datatype 'r response =
    Export_response 'r
  | HttpResponseRedirect string
  | Render_to_response string template_context

definition has_add_permission :: "model_admin \<Rightarrow> request \<Rightarrow> bool" where
  "has_add_permission self request = False"

definition get_admin_url :: "model_admin \<Rightarrow> string \<Rightarrow> string" where
  "get_admin_url self name =
     (let mname = (case model_name (meta self) of
                     Some m \<Rightarrow> m
                   | None \<Rightarrow> module_name' (meta self))
      in app_label (meta self) @ ''_'' @ mname @ ''_'' @ name)"

text \<open>
  The route this file adds in \<open>get_urls\<close>: regular expression, view and route name,
  in front of the routes of the framework's admin.
\<close>

definition get_urls :: "model_admin \<Rightarrow> (string \<times> string \<times> string) list \<Rightarrow> (string \<times> string \<times> string) list" where
  "get_urls self super_urls = [(''export/$'', ''form_export'', get_admin_url self ''export'')] @ super_urls"

text \<open>\<open>entries.order_by('-sent_at')\<close>: latest first.\<close>

definition order_by_sent_at_desc :: "queryset \<Rightarrow> queryset" where
  "order_by_sent_at_desc entries = entries\<lparr>rows := sort_key (\<lambda>e. - sent_at e) (rows entries)\<rparr>"

text \<open>One call \<open>do_export(**kw)\<close>; the call is recorded.\<close>

definition do_export :: "'r env \<Rightarrow> export_args \<Rightarrow> string \<times> string \<Rightarrow> world \<Rightarrow> (exn + 'r) \<times> world" where
  "do_export env args kw w = (export env args kw, w\<lparr>export_calls := export_calls w @ [(kw, args)]\<rparr>)"

text \<open>Lines 155 to 159: the newer keyword first, the legacy keyword on \<open>TypeError\<close>.\<close>

definition try_export :: "'r env \<Rightarrow> export_args \<Rightarrow> world \<Rightarrow> (exn + 'r) \<times> world" where
  "try_export env args w =
     (case do_export env args (''file_type'', ''xls'') w of
        (Inl TypeError, w') \<Rightarrow> do_export env args (''format'', ''xls'') w'
      | (r, w') \<Rightarrow> (r, w'))"

text \<open>Line 91: the filter form bound to the posted data, \<open>request.POST or None\<close>.\<close>

definition bind_form :: "model_admin \<Rightarrow> request \<Rightarrow> filter_form" where
  "bind_form self request = export_form self (if POST request = [] then None else Some (POST request))"

text \<open>Line 103: \<open>entries.order_by('-sent_at')[0]\<close>.\<close>

definition first_entry :: "queryset \<Rightarrow> exn + submission" where
  "first_entry entries = getitem (rows (order_by_sent_at_desc entries)) 0"

text \<open>
  Lines 128 to 153: the headers built from the reference record, and the keyword
  arguments of the export call.
\<close>

definition export_kwargs :: "'r env \<Rightarrow> request \<Rightarrow> queryset \<Rightarrow> string \<Rightarrow> submission \<Rightarrow> export_args" where
  "export_kwargs env request entries filename e =
     (let flds = get_form_data e;
          hs = build_headers (ugettext env) flds
      in \<lparr>kw_request = request, kw_queryset = entries, kw_model = model entries,
          kw_headers = hs, kw_filename = filename\<rparr>)"

definition form_export :: "'r env \<Rightarrow> model_admin \<Rightarrow> request \<Rightarrow> world \<Rightarrow> (exn + 'r response) \<times> world" where
  "form_export env self request w =
     (let opts = meta self;
          form = bind_form self request
      in if is_valid form then
           (let entries = get_queryset form (records w)
            in if rows entries \<noteq> [] then
                 (let filename = get_filename form
                  in case first_entry entries of
                       Inl e \<Rightarrow> (Inl e, w)
                     | Inr e \<Rightarrow>
                         (case try_export env (export_kwargs env request entries filename e) w of
                            (Inl x, w') \<Rightarrow> (Inl x, w')
                          | (Inr r, w') \<Rightarrow> (Inr (Export_response r), w')))
               else (Inr (HttpResponseRedirect (''admin:'' @ get_admin_url self ''export'')),
                     w\<lparr>messages := messages w @ [(WARNING, ugettext env ''No records found'')]\<rparr>))
         else (Inr (Render_to_response ''admin/aldryn_forms/export.html''
                      \<lparr>ctx_errors = errors form, ctx_adminform = form,
                       ctx_has_change_permission = True, ctx_opts = opts,
                       ctx_app_label = app_label opts, ctx_original = ''Export''\<rparr>), w))"

section \<open>The export view of the spreadsheet library\<close>

text \<open>
  The response of the export view, as far as the claims read it: its content type and
  the file name of its attachment header. The library has two variants, which differ in
  the name of the keyword that carries the file type: \<open>file_type\<close> in the newer one,
  \<open>format\<close> in the legacy one.
\<close>

record http_response =
  content_type :: string
  attachment_filename :: string

datatype api_variant = Newer | Legacy

definition type_keyword :: "api_variant \<Rightarrow> string" where
  "type_keyword v = (case v of Newer \<Rightarrow> ''file_type'' | Legacy \<Rightarrow> ''format'')"

definition content_type_of :: "string \<Rightarrow> string" where
  "content_type_of file_type =
     (if file_type = ''xls'' then ''application/vnd.ms-excel'' else ''application/octet-stream'')"

text \<open>
  Modelled from the spec: the export view \<open>django_tablib.views.export\<close>, which this
  file imports and which is not part of it. The spec gives its output as a spreadsheet
  document of the requested type "returned as an HTTP response with an attachment
  filename derived from the filter form", and its two variants as "two different keyword
  argument names across library versions". Called with the keyword of its variant it
  answers with the content type of the file type and names the attachment after the
  \<open>filename\<close> argument, with the file type as extension; called with the other
  keyword it raises \<open>TypeError\<close>, as a call with an unknown keyword does.
\<close>

definition tablib_export :: "api_variant \<Rightarrow> export_args \<Rightarrow> string \<times> string \<Rightarrow> exn + http_response" where
  "tablib_export v args kw =
     (if fst kw = type_keyword v
      then Inr \<lparr>content_type = content_type_of (snd kw),
                attachment_filename = kw_filename args @ ''.'' @ snd kw\<rparr>
      else Inl TypeError)"

section \<open>Sample inputs\<close>

text \<open>
  Concrete records, forms and collaborators on which the theorems below are instantiated.
  \<open>msgid\<close> is \<open>ugettext\<close> with no translation catalogue active; \<open>export_legacy\<close>
  is an export view that knows the keyword \<open>format\<close> only, \<open>export_current\<close> one that
  knows \<open>file_type\<close> only, and \<open>export_rejects\<close> one that knows neither.
\<close>

definition msgid :: "string \<Rightarrow> string" where
  "msgid s = s"

definition export_current :: "export_args \<Rightarrow> string \<times> string \<Rightarrow> exn + string" where
  "export_current args kw =
     (if fst kw = ''file_type'' then Inr (kw_filename args @ ''.'' @ snd kw) else Inl TypeError)"

definition export_legacy :: "export_args \<Rightarrow> string \<times> string \<Rightarrow> exn + string" where
  "export_legacy args kw =
     (if fst kw = ''format'' then Inr (kw_filename args @ ''.'' @ snd kw) else Inl TypeError)"

definition export_rejects :: "export_args \<Rightarrow> string \<times> string \<Rightarrow> exn + string" where
  "export_rejects args kw = Inl TypeError"

definition current_env :: "string env" where
  "current_env = \<lparr>ugettext = msgid, export = export_current\<rparr>"

definition legacy_env :: "string env" where
  "legacy_env = \<lparr>ugettext = msgid, export = export_legacy\<rparr>"

definition rejecting_env :: "string env" where
  "rejecting_env = \<lparr>ugettext = msgid, export = export_rejects\<rparr>"

definition all_records :: "submission list \<Rightarrow> queryset" where
  "all_records recs = \<lparr>model = FormData, rows = recs\<rparr>"

definition contact_form :: filter_form where
  "contact_form = \<lparr>is_valid = True, get_queryset = all_records,
                    get_filename = ''export-en-contact'', errors = []\<rparr>"

definition bound_contact_form :: "(string \<times> string) list option \<Rightarrow> filter_form" where
  "bound_contact_form data = contact_form"

definition contact_admin :: model_admin where
  "contact_admin = \<lparr>admin_class = FormDataAdmin,
                     meta = \<lparr>app_label = ''aldryn_forms'', model_name = Some ''formdata'',
                             module_name' = ''formdata''\<rparr>,
                     export_form = bound_contact_form\<rparr>"

definition contact_request :: request where
  "contact_request = \<lparr>POST = [(''form_name'', ''contact'')]\<rparr>"

definition older :: submission where
  "older = \<lparr>sent_at = 10, language = ''en'',
            get_form_data = [\<lparr>label = ''Name'', val = ''Ann''\<rparr>]\<rparr>"

definition newer :: submission where
  "newer = \<lparr>sent_at = 20, language = ''en'',
            get_form_data = [\<lparr>label = ''Name'', val = ''Bob''\<rparr>,
                             \<lparr>label = ''Email'', val = ''bob@example.org''\<rparr>]\<rparr>"

definition stored_world :: world where
  "stored_world = \<lparr>records = [older, newer], messages = [], export_calls = []\<rparr>"

definition empty_world :: world where
  "empty_world = \<lparr>records = [], messages = [], export_calls = []\<rparr>"

text \<open>
  Field sequences: a repeated label; a label that already has the shape of a
  disambiguated one, before and after the label it clashes with; a label that is the name
  of a trailing column.
\<close>

definition dup_fields :: "form_field list" where
  "dup_fields = [\<lparr>label = ''A'', val = ''1''\<rparr>, \<lparr>label = ''B'', val = ''2''\<rparr>,
                 \<lparr>label = ''A'', val = ''3''\<rparr>]"

definition dup_submission :: submission where
  "dup_submission = \<lparr>sent_at = 5, language = ''en'', get_form_data = dup_fields\<rparr>"

definition suffix_clash_fields :: "form_field list" where
  "suffix_clash_fields = [\<lparr>label = ''A'', val = ''1''\<rparr>, \<lparr>label = ''A 2'', val = ''2''\<rparr>,
                          \<lparr>label = ''A'', val = ''3''\<rparr>]"

definition counted_fields :: "form_field list" where
  "counted_fields = [\<lparr>label = ''A'', val = ''1''\<rparr>, \<lparr>label = ''A'', val = ''2''\<rparr>,
                     \<lparr>label = ''A 2'', val = ''3''\<rparr>, \<lparr>label = ''A 2'', val = ''4''\<rparr>]"

definition language_fields :: "form_field list" where
  "language_fields = [\<lparr>label = ''Language'', val = ''fr''\<rparr>, \<lparr>label = ''X'', val = ''1''\<rparr>]"

text \<open>
  A label with the shape of a disambiguated one, twice, ahead of the repeated label that
  generates it; and a submission that holds, at the position of the second \<open>A\<close> of
  \<open>dup_fields\<close>, a field labelled with that field's column header.
\<close>

definition shadowed_fields :: "form_field list" where
  "shadowed_fields = [\<lparr>label = ''A 2'', val = ''1''\<rparr>, \<lparr>label = ''A 2'', val = ''2''\<rparr>,
                      \<lparr>label = ''A'', val = ''3''\<rparr>, \<lparr>label = ''A'', val = ''4''\<rparr>]"

definition shadowed_submission :: submission where
  "shadowed_submission = \<lparr>sent_at = 30, language = ''en'', get_form_data = shadowed_fields\<rparr>"

definition shadowed_world :: world where
  "shadowed_world = \<lparr>records = [shadowed_submission], messages = [], export_calls = []\<rparr>"

definition renamed_submission :: submission where
  "renamed_submission =
     \<lparr>sent_at = 7, language = ''en'',
      get_form_data = [\<lparr>label = ''A'', val = ''1''\<rparr>, \<lparr>label = ''B'', val = ''2''\<rparr>,
                       \<lparr>label = ''A 2'', val = ''9''\<rparr>]\<rparr>"

text \<open>The two variants of the export view, with no translation active.\<close>

definition tablib_env :: "api_variant \<Rightarrow> http_response env" where
  "tablib_env v = \<lparr>ugettext = msgid, export = tablib_export v\<rparr>"

text \<open>Stores holding one submission with such a field sequence.\<close>

definition suffix_clash_world :: world where
  "suffix_clash_world =
     \<lparr>records = [\<lparr>sent_at = 30, language = ''en'', get_form_data = suffix_clash_fields\<rparr>],
      messages = [], export_calls = []\<rparr>"

definition language_world :: world where
  "language_world =
     \<lparr>records = [\<lparr>sent_at = 30, language = ''en'', get_form_data = language_fields\<rparr>],
      messages = [], export_calls = []\<rparr>"

section \<open>Decimal formatting is injective\<close>

lemma digit_char_in: "d < 10 \<Longrightarrow> digit_char d \<in> set ''0123456789''"
  unfolding digit_char_def by (rule nth_mem) simp

lemma digit_char_inj: "a < 10 \<Longrightarrow> b < 10 \<Longrightarrow> digit_char a = digit_char b \<Longrightarrow> a = b"
  unfolding digit_char_def
  by (subst (asm) nth_eq_iff_index_eq) simp_all

lemma str_nat_small: "n < 10 \<Longrightarrow> str_nat n = [digit_char n]"
  by (subst str_nat.simps) simp

lemma str_nat_big: "\<not> n < 10 \<Longrightarrow> str_nat n = str_nat (n div 10) @ [digit_char (n mod 10)]"
  by (subst str_nat.simps) simp

lemma str_nat_nonempty: "str_nat n \<noteq> []"
  by (subst str_nat.simps) simp

lemma str_nat_digits: "set (str_nat n) \<subseteq> set ''0123456789''"
proof (induction n rule: str_nat.induct)
  case (1 n)
  show ?case
  proof (cases "n < 10")
    case True
    then show ?thesis using digit_char_in[of n] by (simp add: str_nat_small)
  next
    case False
    have "digit_char (n mod 10) \<in> set ''0123456789''" by (rule digit_char_in) simp
    then show ?thesis using False "1.IH" by (simp add: str_nat_big)
  qed
qed

lemma str_nat_inj: "str_nat m = str_nat n \<Longrightarrow> m = n"
proof (induction m arbitrary: n rule: str_nat.induct)
  case (1 m)
  show ?case
  proof (cases "m < 10")
    case m: True
    show ?thesis
    proof (cases "n < 10")
      case True
      have "[digit_char m] = [digit_char n]"
        using "1.prems" str_nat_small[OF m] str_nat_small[OF True] by simp
      then show ?thesis using digit_char_inj[OF m True] by simp
    next
      case False
      have "[digit_char m] = str_nat (n div 10) @ [digit_char (n mod 10)]"
        using "1.prems" str_nat_small[OF m] str_nat_big[OF False] by simp
      then show ?thesis using str_nat_nonempty[of "n div 10"] by simp
    qed
  next
    case m: False
    show ?thesis
    proof (cases "n < 10")
      case True
      have "[digit_char n] = str_nat (m div 10) @ [digit_char (m mod 10)]"
        using "1.prems" str_nat_small[OF True] str_nat_big[OF m] by simp
      then show ?thesis using str_nat_nonempty[of "m div 10"] by simp
    next
      case False
      have "str_nat (m div 10) @ [digit_char (m mod 10)]
              = str_nat (n div 10) @ [digit_char (n mod 10)]"
        using "1.prems" str_nat_big[OF False] str_nat_big[OF m] by simp
      then have eq: "str_nat (m div 10) = str_nat (n div 10)"
                    "digit_char (m mod 10) = digit_char (n mod 10)"
        by simp_all
      have "m div 10 = n div 10" using "1.IH"[OF m eq(1)] .
      moreover have "m mod 10 = n mod 10" using digit_char_inj[OF _ _ eq(2)] by simp
      ultimately show ?thesis by (metis div_mult_mod_eq)
    qed
  qed
qed

lemma str_nat_no_space: "CHR '' '' \<notin> set (str_nat n)"
  using str_nat_digits[of n] by auto

lemma str_nat_no_minus: "CHR ''-'' \<notin> set (str_nat n)"
  using str_nat_digits[of n] by auto

lemma str_int_no_space: "CHR '' '' \<notin> set (str_int i)"
  by (simp add: str_int_def str_nat_no_space)

lemma minus_str_nat: "CHR ''-'' # str_nat a \<noteq> str_nat b"
proof
  assume "CHR ''-'' # str_nat a = str_nat b"
  then have "CHR ''-'' \<in> set (str_nat b)" by (metis list.set_intros(1))
  then show False using str_nat_no_minus by simp
qed

lemma str_int_inj: "str_int i = str_int j \<Longrightarrow> i = j"
proof -
  assume eq: "str_int i = str_int j"
  show ?thesis
  proof (cases "i < 0")
    case i: True
    show ?thesis
    proof (cases "j < 0")
      case True
      then have "str_nat (nat (- i)) = str_nat (nat (- j))"
        using eq i by (simp add: str_int_def)
      then have "nat (- i) = nat (- j)" by (rule str_nat_inj)
      then show ?thesis using i True by simp
    next
      case False
      then have "CHR ''-'' # str_nat (nat (- i)) = str_nat (nat j)"
        using eq i by (simp add: str_int_def)
      then show ?thesis using minus_str_nat by blast
    qed
  next
    case i: False
    show ?thesis
    proof (cases "j < 0")
      case True
      then have "CHR ''-'' # str_nat (nat (- j)) = str_nat (nat i)"
        using eq i by (simp add: str_int_def)
      then show ?thesis using minus_str_nat by blast
    next
      case False
      then have "str_nat (nat i) = str_nat (nat j)" using eq i by (simp add: str_int_def)
      then have "nat i = nat j" by (rule str_nat_inj)
      then show ?thesis using i False by simp
    qed
  qed
qed

text \<open>A string is split in one way only at its last occurrence of a character.\<close>

lemma first_split:
  "a \<notin> set p \<Longrightarrow> a \<notin> set p' \<Longrightarrow> p @ a # s = p' @ a # s' \<Longrightarrow> p = p' \<and> s = s'"
proof (induction p arbitrary: p')
  case Nil
  then show ?case by (cases p') auto
next
  case (Cons x p)
  then show ?case by (cases p') auto
qed

lemma last_split:
  assumes "a \<notin> set ys" "a \<notin> set ys'" "xs @ a # ys = xs' @ a # ys'"
  shows "xs = xs' \<and> ys = ys'"
proof -
  have "rev (xs @ a # ys) = rev (xs' @ a # ys')" using assms(3) by simp
  then have "rev ys @ a # rev xs = rev ys' @ a # rev xs'" by simp
  moreover have "a \<notin> set (rev ys)" "a \<notin> set (rev ys')" using assms by simp_all
  ultimately have "rev ys = rev ys' \<and> rev xs = rev xs'"
    by (rule first_split[rotated 2])
  then show ?thesis by simp
qed

lemma format_label_inj:
  assumes "format_label l1 n1 = format_label l2 n2"
  shows "l1 = l2 \<and> n1 = n2"
proof -
  have "l1 @ CHR '' '' # str_int n1 = l2 @ CHR '' '' # str_int n2"
    using assms by (simp add: format_label_def)
  then have "l1 = l2 \<and> str_int n1 = str_int n2"
    by (rule last_split[OF str_int_no_space str_int_no_space])
  then show ?thesis using str_int_inj by blast
qed

lemma format_label_neq: "format_label l n \<noteq> l"
  by (simp add: format_label_def)

text \<open>No disambiguated name is one of the untranslated trailing names.\<close>

lemma str_nat_no_letter: "CHR ''o'' \<notin> set (str_nat n)"
  using str_nat_digits[of n] by auto

lemma str_int_no_letter: "CHR ''o'' \<notin> set (str_int i)"
  by (simp add: str_int_def str_nat_no_letter)

lemma generated_not_trailing:
  "format_label l n \<noteq> ''Language'' \<and> format_label l n \<noteq> ''Submitted on''"
proof
  show "format_label l n \<noteq> ''Language''"
  proof
    assume eq: "format_label l n = ''Language''"
    have "CHR '' '' \<in> set (format_label l n)" by (simp add: format_label_def)
    then have "CHR '' '' \<in> set ''Language''" unfolding eq .
    then show False by simp
  qed
next
  show "format_label l n \<noteq> ''Submitted on''"
  proof
    assume "format_label l n = ''Submitted on''"
    then have eq: "l @ CHR '' '' # str_int n = ''Submitted'' @ CHR '' '' # ''on''"
      by (simp add: format_label_def)
    have sp: "CHR '' '' \<notin> set ''on''" by simp
    have "l = ''Submitted'' \<and> str_int n = ''on''"
      by (rule last_split[OF str_int_no_space sp eq])
    then have "CHR ''o'' \<in> set (str_int n)" by simp
    then show False using str_int_no_letter by blast
  qed
qed

section \<open>The export view: control flow\<close>

lemma sort_key_neg_hd:
  assumes "xs \<noteq> []"
  shows "\<forall>x\<in>set xs. sent_at x \<le> sent_at (hd (sort_key (\<lambda>e. - sent_at e) xs))"
proof -
  let ?ys = "sort_key (\<lambda>e. - sent_at e) xs"
  have s: "sorted (map (\<lambda>e. - sent_at e) ?ys)" by simp
  have "?ys \<noteq> []" using assms by (metis length_sort length_0_conv)
  then obtain y ys where ys: "?ys = y # ys" by (cases ?ys) auto
  have "\<forall>x\<in>set ?ys. sent_at x \<le> sent_at y"
    using s unfolding ys by auto
  then show ?thesis unfolding ys by (metis list.sel(1) set_sort ys)
qed

lemma first_entry_hd:
  assumes "rows entries \<noteq> []"
  shows "first_entry entries = Inr (hd (sort_key (\<lambda>e. - sent_at e) (rows entries)))"
proof -
  have "sort_key (\<lambda>e. - sent_at e) (rows entries) \<noteq> []"
    using assms by (metis length_sort length_0_conv)
  then show ?thesis
    using assms by (simp add: first_entry_def order_by_sent_at_desc_def getitem_def hd_conv_nth)
qed

lemma form_export_entries:
  assumes "is_valid (bind_form self request)"
      and "rows (get_queryset (bind_form self request) (records w)) \<noteq> []"
      and "first_entry (get_queryset (bind_form self request) (records w)) = Inr e"
  shows "form_export env self request w =
           (case try_export env
                   (export_kwargs env request (get_queryset (bind_form self request) (records w))
                      (get_filename (bind_form self request)) e) w of
              (Inl x, w') \<Rightarrow> (Inl x, w')
            | (Inr r, w') \<Rightarrow> (Inr (Export_response r), w'))"
  using assms by (simp add: form_export_def Let_def)

lemma try_export_cases:
  "try_export env args w =
     (case export env args (''file_type'', ''xls'') of
        Inl TypeError \<Rightarrow>
          (export env args (''format'', ''xls''),
           w\<lparr>export_calls := export_calls w @
                [((''file_type'', ''xls''), args), ((''format'', ''xls''), args)]\<rparr>)
      | r \<Rightarrow> (r, w\<lparr>export_calls := export_calls w @ [((''file_type'', ''xls''), args)]\<rparr>))"
  by (simp add: try_export_def do_export_def split: sum.splits exn.splits)

lemma form_export_records: "records (snd (form_export env self request w)) = records w"
  by (simp add: form_export_def Let_def try_export_cases split: sum.splits exn.splits prod.splits)

text \<open>Facts about the sample inputs.\<close>

lemma first_entry_stored: "first_entry (all_records [older, newer]) = Inr newer"
  by (simp add: first_entry_def order_by_sent_at_desc_def getitem_def all_records_def older_def newer_def)

lemma bind_contact: "bind_form contact_admin contact_request = contact_form"
  by (simp add: bind_form_def contact_admin_def bound_contact_form_def)

lemma first_entry_single: "first_entry (all_records [e]) = Inr e"
  by (simp add: first_entry_def order_by_sent_at_desc_def getitem_def all_records_def)

lemma export_current_calls:
  assumes "records w = [e]" and "export_calls w = []"
  shows "map (kw_headers \<circ> snd) (export_calls (snd (form_export current_env contact_admin contact_request w)))
           = [build_headers msgid (get_form_data e)]"
proof -
  have v: "is_valid (bind_form contact_admin contact_request)"
    by (simp add: bind_contact contact_form_def)
  have q: "get_queryset (bind_form contact_admin contact_request) (records w) = all_records [e]"
    by (simp add: bind_contact contact_form_def assms(1))
  have n: "rows (get_queryset (bind_form contact_admin contact_request) (records w)) \<noteq> []"
    by (simp add: q all_records_def)
  have f: "first_entry (get_queryset (bind_form contact_admin contact_request) (records w)) = Inr e"
    by (simp add: q first_entry_single)
  show ?thesis
    unfolding form_export_entries[OF v n f] try_export_cases
    by (simp add: current_env_def export_current_def export_kwargs_def assms(2))
qed

text \<open>Either variant of the export view answers the fallback with an \<open>xls\<close> response.\<close>

lemma tablib_try_export:
  assumes "export env = tablib_export v"
  shows "fst (try_export env args w)
           = Inr \<lparr>content_type = ''application/vnd.ms-excel'',
                  attachment_filename = kw_filename args @ ''.xls''\<rparr>"
  unfolding try_export_cases assms
  by (cases v) (simp_all add: tablib_export_def type_keyword_def content_type_of_def)

section \<open>The header loop: invariants\<close>

lemma contains_setitem: "contains (setitem hs k v) k' \<longleftrightarrow> k' = k \<or> contains hs k'"
  by (induction hs) (auto simp: contains_def)

lemma map_of_setitem: "map_of (setitem hs k v) k' = (if k' = k then Some v else map_of hs k')"
  by (induction hs) auto

lemma contains_map_of: "contains hs k \<longleftrightarrow> map_of hs k \<noteq> None"
  by (simp add: contains_def map_of_eq_None_iff)

lemma header_step_eq:
  "header_step (p, f) (occ, hs) =
     (if contains hs (label f)
      then (occ(label f \<mapsto> dd_getitem occ (label f) + 1),
            setitem hs (format_label (label f) (dd_getitem occ (label f) + 1))
              (Callable (clean_data (label f) p)))
      else (occ, setitem hs (label f) (Callable (clean_data (label f) p))))"
  by (simp add: header_step_def disambiguate_def Let_def dd_getitem_def)

lemma loop_Nil: "header_loop_from n [] st = st"
  by (simp add: header_loop_from_def)

lemma loop_Cons: "header_loop_from n (f # fs) st = header_loop_from (Suc n) fs (header_step (n, f) st)"
  by (simp add: header_loop_from_def)

lemma loop_append:
  "header_loop_from n (xs @ ys) st = header_loop_from (n + length xs) ys (header_loop_from n xs st)"
  by (simp add: header_loop_from_def enumerate_append_eq)

lemma dd_getitem_upd:
  "dd_getitem (occ(k \<mapsto> c)) k' = (if k' = k then c else dd_getitem occ k')"
  by (simp add: dd_getitem_def)

lemma step_contains:
  "contains hs k \<Longrightarrow> contains (snd (header_step (p, f) (occ, hs))) k"
  by (simp add: header_step_eq contains_setitem)

lemma step_contains_label:
  "contains (snd (header_step (p, f) (occ, hs))) (label f)"
  by (simp add: header_step_eq contains_setitem)

lemma step_counter_mono:
  "dd_getitem occ k \<le> dd_getitem (fst (header_step (p, f) (occ, hs))) k"
  by (simp add: header_step_eq dd_getitem_upd)

lemma loop_contains:
  "contains hs k \<Longrightarrow> contains (snd (header_loop_from n xs (occ, hs))) k"
proof (induction xs arbitrary: n occ hs)
  case Nil
  then show ?case by (simp add: loop_Nil)
next
  case (Cons f fs)
  obtain occ1 hs1 where st: "header_step (n, f) (occ, hs) = (occ1, hs1)" by (cases "header_step (n, f) (occ, hs)")
  have "contains hs1 k" using step_contains[OF Cons.prems, of n f occ] st by simp
  then show ?case using Cons.IH[of hs1 "Suc n" occ1] by (simp add: loop_Cons st)
qed

lemma loop_counter_mono:
  "dd_getitem occ k \<le> dd_getitem (fst (header_loop_from n xs (occ, hs))) k"
proof (induction xs arbitrary: n occ hs)
  case Nil
  then show ?case by (simp add: loop_Nil)
next
  case (Cons f fs)
  obtain occ1 hs1 where st: "header_step (n, f) (occ, hs) = (occ1, hs1)" by (cases "header_step (n, f) (occ, hs)")
  have "dd_getitem occ k \<le> dd_getitem occ1 k" using step_counter_mono[of occ k n f hs] st by simp
  then show ?case using Cons.IH[of occ1 "Suc n" hs1] by (simp add: loop_Cons st)
qed

text \<open>A disambiguated header, once set, is never assigned again.\<close>

lemma step_keeps_generated:
  assumes "map_of hs (format_label L c) = Some v" and "c \<le> dd_getitem occ L"
  shows "map_of (snd (header_step (p, f) (occ, hs))) (format_label L c) = Some v"
proof (cases "contains hs (label f)")
  case True
  have "format_label L c \<noteq> format_label (label f) (dd_getitem occ (label f) + 1)"
  proof
    assume "format_label L c = format_label (label f) (dd_getitem occ (label f) + 1)"
    then have "L = label f \<and> c = dd_getitem occ (label f) + 1" by (rule format_label_inj)
    then show False using assms(2) by simp
  qed
  then show ?thesis using True assms(1) by (simp add: header_step_eq map_of_setitem)
next
  case False
  then have "format_label L c \<noteq> label f" using assms(1) by (auto simp: contains_map_of)
  then show ?thesis using False assms(1) by (simp add: header_step_eq map_of_setitem)
qed

lemma loop_keeps_generated:
  assumes "map_of hs (format_label L c) = Some v" and "c \<le> dd_getitem occ L"
  shows "map_of (snd (header_loop_from n xs (occ, hs))) (format_label L c) = Some v"
  using assms
proof (induction xs arbitrary: n occ hs)
  case Nil
  then show ?case by (simp add: loop_Nil)
next
  case (Cons f fs)
  obtain occ1 hs1 where st: "header_step (n, f) (occ, hs) = (occ1, hs1)" by (cases "header_step (n, f) (occ, hs)")
  have 1: "map_of hs1 (format_label L c) = Some v"
    using step_keeps_generated[OF Cons.prems, of n f] st by simp
  have 2: "c \<le> dd_getitem occ1 L"
    using step_counter_mono[of occ L n f hs] st Cons.prems(2) by simp
  show ?case using Cons.IH[OF 1 2, of "Suc n"] by (simp add: loop_Cons st)
qed

text \<open>The state reached before position \<open>M\<close>, seen from an earlier position \<open>N\<close>.\<close>

lemma column_header_eq:
  "column_header flds p =
     (if contains (snd (header_loop (take p flds))) (label (flds ! p))
      then format_label (label (flds ! p))
             (dd_getitem (fst (header_loop (take p flds))) (label (flds ! p)) + 1)
      else label (flds ! p))"
  by (simp add: column_header_def disambiguate_def Let_def dd_getitem_def split: prod.splits)

lemma take_split:
  assumes "N < M" "M \<le> length flds"
  shows "take M flds = take N flds @ flds ! N # drop (Suc N) (take M flds)"
proof -
  have "N < length (take M flds)" using assms by simp
  then have "take M flds = take N (take M flds) @ (take M flds) ! N # drop (Suc N) (take M flds)"
    by (rule id_take_nth_drop)
  moreover have "take N (take M flds) = take N flds" using assms by (simp add: min_def)
  moreover have "(take M flds) ! N = flds ! N" using assms by simp
  ultimately show ?thesis by simp
qed

lemma loop_split:
  assumes "N < M" "M \<le> length flds"
  shows "header_loop (take M flds) =
           header_loop_from (Suc N) (drop (Suc N) (take M flds))
             (header_step (N, flds ! N) (header_loop (take N flds)))"
proof -
  have len: "length (take N flds) = N" using assms by simp
  have "header_loop (take M flds)
          = header_loop_from 0 (take N flds @ flds ! N # drop (Suc N) (take M flds)) (Map.empty, [])"
    unfolding header_loop_def using take_split[OF assms] by simp
  also have "\<dots> = header_loop_from N (flds ! N # drop (Suc N) (take M flds)) (header_loop (take N flds))"
    unfolding loop_append header_loop_def len by simp
  finally show ?thesis by (simp add: loop_Cons)
qed

lemma loop_whole:
  assumes "p < length flds"
  shows "header_loop flds =
           header_loop_from (Suc p) (drop (Suc p) flds)
             (header_step (p, flds ! p) (header_loop (take p flds)))"
  using loop_split[of p "length flds" flds] assms by simp

lemma map_of_build_headers:
  assumes "tr ''Language'' \<noteq> k" "tr ''Submitted on'' \<noteq> k"
  shows "map_of (build_headers tr flds) k = map_of (snd (header_loop flds)) k"
  using assms by (simp add: build_headers_def Let_def map_of_setitem)

lemma clean_data_eq:
  "clean_data L p obj =
     Inr (if p < length (get_form_data obj) \<and> label (get_form_data obj ! p) = L
          then val (get_form_data obj ! p) else '''')"
  by (simp add: clean_data_def getitem_def)

text \<open>Unfolding the header builder on a concrete field sequence.\<close>

lemmas loop_eval = header_loop_def header_loop_from_def header_step_def disambiguate_def
  contains_def format_label_def dd_getitem_def str_int_def str_nat_small digit_char_def
  column_header_def build_headers_def msgid_def

section \<open>The claims\<close>

text \<open>
  Claim C1 says that the headers number the fields of the reference record plus two. The
  code misses the case of a generated name that is already a key: with the labels
  \<open>A\<close>, \<open>A 2\<close>, \<open>A\<close> the third field is filed under \<open>A 2\<close> and replaces the
  column of the second, and four headers are built, not five. The export view is run
  on a store whose only submission has these fields; the headers of its export call are
  listed.
\<close>

theorem header_count_collision:
  "length suffix_clash_fields = 3
   \<and> map (map fst \<circ> kw_headers \<circ> snd)
         (export_calls (snd (form_export current_env contact_admin contact_request suffix_clash_world)))
       = [[''A'', ''A 2'', ''Language'', ''Submitted on'']]"
proof -
  have h: "map fst (build_headers msgid suffix_clash_fields) = [''A'', ''A 2'', ''Language'', ''Submitted on'']"
    by (simp add: suffix_clash_fields_def loop_eval)
  have "map (kw_headers \<circ> snd)
          (export_calls (snd (form_export current_env contact_admin contact_request suffix_clash_world)))
        = [build_headers msgid suffix_clash_fields]"
    using export_current_calls[of suffix_clash_world] by (simp add: suffix_clash_world_def)
  then have "map (map fst) (map (kw_headers \<circ> snd)
          (export_calls (snd (form_export current_env contact_admin contact_request suffix_clash_world))))
        = [[''A'', ''A 2'', ''Language'', ''Submitted on'']]"
    using h by simp
  then show ?thesis by (simp add: suffix_clash_fields_def comp_def)
qed

text \<open>
  Claim C2 says that two fields with the same label receive distinct column headers, the
  \<open>k\<close>-th occurrence of \<open>L\<close> the header \<open>L k\<close>. The code misses the case of a
  generated name that is already a key, as in C1: with the labels \<open>A 2\<close>, \<open>A 2\<close>,
  \<open>A\<close>, \<open>A\<close> the second \<open>A\<close> is filed under \<open>A 2\<close> and takes the column of the
  field at position 0, so the two fields labelled \<open>A 2\<close> are left with the one column
  \<open>A 2 2\<close>, and \<open>A 2\<close> shows the fourth field's value. The export view is run on a
  store whose only submission has these fields. With the labels \<open>A\<close>, \<open>A\<close>,
  \<open>A 2\<close>, \<open>A 2\<close> the same clash gives the second \<open>A 2\<close> the name \<open>A 2 3\<close>.
\<close>

theorem duplicate_label_column_lost:
  "label (shadowed_fields ! 0) = ''A 2'' \<and> label (shadowed_fields ! 1) = ''A 2''
   \<and> map (map fst \<circ> kw_headers \<circ> snd)
         (export_calls (snd (form_export current_env contact_admin contact_request shadowed_world)))
       = [[''A 2'', ''A 2 2'', ''A'', ''Language'', ''Submitted on'']]
   \<and> map_of (build_headers msgid shadowed_fields) ''A 2'' = Some (Callable (clean_data ''A'' 3))
   \<and> clean_data ''A'' 3 shadowed_submission = Inr ''4''
   \<and> map (column_header counted_fields) [0, 1, 2, 3] = [''A'', ''A 2'', ''A 2 2'', ''A 2 3'']"
proof -
  have l: "label (shadowed_fields ! 0) = ''A 2''" "label (shadowed_fields ! 1) = ''A 2''"
    by (simp_all add: shadowed_fields_def)
  have h: "map fst (build_headers msgid shadowed_fields)
             = [''A 2'', ''A 2 2'', ''A'', ''Language'', ''Submitted on'']"
    by (simp add: shadowed_fields_def loop_eval)
  have m: "map_of (build_headers msgid shadowed_fields) ''A 2'' = Some (Callable (clean_data ''A'' 3))"
    by (simp add: shadowed_fields_def loop_eval numeral_3_eq_3)
  have c: "clean_data ''A'' 3 shadowed_submission = Inr ''4''"
    by (simp add: clean_data_eq shadowed_submission_def shadowed_fields_def)
  have k: "map (column_header counted_fields) [0, 1, 2, 3] = [''A'', ''A 2'', ''A 2 2'', ''A 2 3'']"
    by (simp add: counted_fields_def loop_eval)
  have "map (kw_headers \<circ> snd)
          (export_calls (snd (form_export current_env contact_admin contact_request shadowed_world)))
        = [build_headers msgid shadowed_fields]"
    using export_current_calls[of shadowed_world shadowed_submission]
    by (simp add: shadowed_world_def shadowed_submission_def)
  then have "map (map fst) (map (kw_headers \<circ> snd)
          (export_calls (snd (form_export current_env contact_admin contact_request shadowed_world))))
        = [[''A 2'', ''A 2 2'', ''A'', ''Language'', ''Submitted on'']]"
    using h by simp
  then have e: "map (map fst \<circ> kw_headers \<circ> snd)
         (export_calls (snd (form_export current_env contact_admin contact_request shadowed_world)))
       = [[''A 2'', ''A 2 2'', ''A'', ''Language'', ''Submitted on'']]"
    by (simp add: comp_def)
  show ?thesis using l e m c k by blast
qed

text \<open>
  Claim C3. An accessor built for position \<open>P\<close> and label \<open>L\<close> returns the empty
  string, and raises nothing, for every submission that has no field at position \<open>P\<close>
  or whose field at position \<open>P\<close> has a label other than \<open>L\<close>.
\<close>

theorem clean_data_mismatch:
  assumes "length (get_form_data obj) \<le> position \<or> label (get_form_data obj ! position) \<noteq> L"
  shows "clean_data L position obj = Inr ''''"
  using assms by (auto simp: clean_data_def getitem_def)

theorem clean_data_mismatch_witness:
  "clean_data ''Email'' 1 older = Inr '''' \<and> clean_data ''Email'' 0 older = Inr ''''"
  using clean_data_mismatch[of older 1 "''Email''"] clean_data_mismatch[of older 0 "''Email''"]
  by (simp add: older_def)

text \<open>
  Claim C4. When the filter form is valid and its queryset is empty, \<open>form_export\<close>
  queues the warning "No records found" and returns a redirect to the route under which
  \<open>get_urls\<close> registers the export view; no call of the export view of the spreadsheet
  library is made.
\<close>

theorem empty_queryset_redirect:
  assumes "is_valid (bind_form self request)"
      and "rows (get_queryset (bind_form self request) (records w)) = []"
  shows "form_export env self request w =
           (Inr (HttpResponseRedirect (''admin:'' @ get_admin_url self ''export'')),
            w\<lparr>messages := messages w @ [(WARNING, ugettext env ''No records found'')]\<rparr>)
         \<and> export_calls (snd (form_export env self request w)) = export_calls w
         \<and> get_urls self super_urls ! 0 = (''export/$'', ''form_export'', get_admin_url self ''export'')"
  using assms by (simp add: form_export_def Let_def get_urls_def)

theorem empty_queryset_redirect_witness:
  "form_export legacy_env contact_admin contact_request empty_world =
     (Inr (HttpResponseRedirect ''admin:aldryn_forms_formdata_export''),
      \<lparr>records = [], messages = [(WARNING, ''No records found'')], export_calls = []\<rparr>)"
proof -
  have v: "is_valid (bind_form contact_admin contact_request)"
    by (simp add: bind_contact contact_form_def)
  have n: "rows (get_queryset (bind_form contact_admin contact_request) (records empty_world)) = []"
    by (simp add: bind_contact contact_form_def empty_world_def all_records_def)
  show ?thesis
    using empty_queryset_redirect[OF v n, of legacy_env "[]"]
    by (simp add: get_admin_url_def contact_admin_def legacy_env_def msgid_def empty_world_def)
qed

text \<open>
  Claim C5 says that the columns \<open>Language\<close> and \<open>Submitted on\<close> are the last two of
  the ordered mapping. The code misses the case of a field that carries one of these
  names: with the labels \<open>Language\<close>, \<open>X\<close> the assignment after the loop replaces the
  field's accessor in place, and \<open>Language\<close> stays first, before the column \<open>X\<close>.
  The export view is run on a store whose only submission has these fields.
\<close>

theorem trailing_collision:
  "map (map fst \<circ> kw_headers \<circ> snd)
         (export_calls (snd (form_export current_env contact_admin contact_request language_world)))
       = [[''Language'', ''X'', ''Submitted on'']]
   \<and> map_of (build_headers msgid language_fields) ''Language'' = Some (Attr ''language'')"
proof -
  have h: "map fst (build_headers msgid language_fields) = [''Language'', ''X'', ''Submitted on'']"
    by (simp add: language_fields_def loop_eval)
  have m: "map_of (build_headers msgid language_fields) ''Language'' = Some (Attr ''language'')"
    by (simp add: language_fields_def loop_eval)
  have "map (kw_headers \<circ> snd)
          (export_calls (snd (form_export current_env contact_admin contact_request language_world)))
        = [build_headers msgid language_fields]"
    using export_current_calls[of language_world] by (simp add: language_world_def)
  then have "map (map fst) (map (kw_headers \<circ> snd)
          (export_calls (snd (form_export current_env contact_admin contact_request language_world))))
        = [[''Language'', ''X'', ''Submitted on'']]"
    using h by simp
  then show ?thesis using m by (simp add: comp_def)
qed

text \<open>
  Claim C6. \<open>has_add_permission\<close> is defined once, on the base class, and overridden by
  neither registered admin class: it answers \<open>False\<close> for every admin instance and every
  request. The export view leaves the stored submission records as they were.
\<close>

theorem creation_rejected:
  "\<not> has_add_permission self request
   \<and> map snd registry = [FormDataAdmin, FormSubmissionAdmin]
   \<and> records (snd (form_export env self request w)) = records w"
  by (simp add: has_add_permission_def registry_def form_export_records)

text \<open>
  Claim C7. With a valid form and a non-empty queryset, \<open>form_export\<close> calls the export
  view with \<open>file_type='xls'\<close> first. When that call raises \<open>TypeError\<close>, and only
  then, it calls once more with \<open>format='xls'\<close>, and the outcome of the second call,
  response or exception, is the outcome of \<open>form_export\<close>. Otherwise the outcome of the
  first call is.
\<close>

theorem export_fallback:
  assumes "is_valid (bind_form self request)"
      and "rows (get_queryset (bind_form self request) (records w)) \<noteq> []"
      and "first_entry (get_queryset (bind_form self request) (records w)) = Inr e"
      and "args = export_kwargs env request (get_queryset (bind_form self request) (records w))
                    (get_filename (bind_form self request)) e"
  shows "form_export env self request w =
           (case export env args (''file_type'', ''xls'') of
              Inl TypeError \<Rightarrow>
                (map_sum id Export_response (export env args (''format'', ''xls'')),
                 w\<lparr>export_calls := export_calls w @
                      [((''file_type'', ''xls''), args), ((''format'', ''xls''), args)]\<rparr>)
            | r \<Rightarrow> (map_sum id Export_response r,
                     w\<lparr>export_calls := export_calls w @ [((''file_type'', ''xls''), args)]\<rparr>))"
  unfolding form_export_entries[OF assms(1-3)] assms(4) try_export_cases
  by (simp split: sum.splits exn.splits)

theorem export_fallback_witness:
  "form_export legacy_env contact_admin contact_request stored_world =
     (Inr (Export_response ''export-en-contact.xls''),
      stored_world\<lparr>export_calls :=
        [((''file_type'', ''xls''), export_kwargs legacy_env contact_request (all_records [older, newer]) ''export-en-contact'' newer),
         ((''format'', ''xls''), export_kwargs legacy_env contact_request (all_records [older, newer]) ''export-en-contact'' newer)]\<rparr>)
   \<and> fst (form_export rejecting_env contact_admin contact_request stored_world) = Inl TypeError
   \<and> form_export current_env contact_admin contact_request stored_world =
     (Inr (Export_response ''export-en-contact.xls''),
      stored_world\<lparr>export_calls :=
        [((''file_type'', ''xls''), export_kwargs current_env contact_request (all_records [older, newer]) ''export-en-contact'' newer)]\<rparr>)"
proof -
  have v: "is_valid (bind_form contact_admin contact_request)"
    by (simp add: bind_contact contact_form_def)
  have q: "get_queryset (bind_form contact_admin contact_request) (records stored_world) = all_records [older, newer]"
    by (simp add: bind_contact contact_form_def stored_world_def)
  have n: "rows (get_queryset (bind_form contact_admin contact_request) (records stored_world)) \<noteq> []"
    by (simp add: q all_records_def)
  have f: "first_entry (get_queryset (bind_form contact_admin contact_request) (records stored_world)) = Inr newer"
    by (simp add: q first_entry_stored)
  have fn: "get_filename (bind_form contact_admin contact_request) = ''export-en-contact''"
    by (simp add: bind_contact contact_form_def)
  have ec: "export_calls stored_world = []"
    by (simp add: stored_world_def)
  show ?thesis
    using export_fallback[OF v n f refl, of legacy_env, unfolded q fn]
          export_fallback[OF v n f refl, of rejecting_env, unfolded q fn]
          export_fallback[OF v n f refl, of current_env, unfolded q fn]
    by (simp add: legacy_env_def rejecting_env_def current_env_def export_legacy_def
          export_rejects_def export_current_def export_kwargs_def ec)
qed

text \<open>
  Claim C8. The reference record is the first row of the queryset ordered by \<open>sent_at\<close>
  descending: a row of the filtered queryset whose timestamp no other row exceeds. The
  headers of every export call are built from its field sequence.
\<close>

theorem reference_record_latest:
  assumes "is_valid (bind_form self request)"
      and "entries = get_queryset (bind_form self request) (records w)"
      and "rows entries \<noteq> []"
  shows "\<exists>e. first_entry entries = Inr e \<and> e \<in> set (rows entries)
           \<and> (\<forall>x\<in>set (rows entries). sent_at x \<le> sent_at e)
           \<and> (\<exists>calls. export_calls (snd (form_export env self request w)) = export_calls w @ calls
                 \<and> calls \<noteq> []
                 \<and> (\<forall>c\<in>set calls. kw_headers (snd c) = build_headers (ugettext env) (get_form_data e)))"
proof -
  let ?e = "hd (sort_key (\<lambda>e. - sent_at e) (rows entries))"
  have fe: "first_entry entries = Inr ?e" by (rule first_entry_hd[OF assms(3)])
  have "sort_key (\<lambda>e. - sent_at e) (rows entries) \<noteq> []"
    using assms(3) by (metis length_sort length_0_conv)
  then have mem: "?e \<in> set (rows entries)" by (metis hd_in_set set_sort)
  have mx: "\<forall>x\<in>set (rows entries). sent_at x \<le> sent_at ?e"
    by (rule sort_key_neg_hd[OF assms(3)])
  let ?args = "export_kwargs env request entries (get_filename (bind_form self request)) ?e"
  have fx: "form_export env self request w =
           (case try_export env ?args w of
              (Inl x, w') \<Rightarrow> (Inl x, w')
            | (Inr r, w') \<Rightarrow> (Inr (Export_response r), w'))"
    using form_export_entries[of self request w ?e env] assms fe by simp
  have hs: "kw_headers ?args = build_headers (ugettext env) (get_form_data ?e)"
    by (simp add: export_kwargs_def Let_def)
  have "\<exists>calls. export_calls (snd (form_export env self request w)) = export_calls w @ calls
                 \<and> calls \<noteq> [] \<and> (\<forall>c\<in>set calls. snd c = ?args)"
    unfolding fx try_export_cases by (simp split: sum.splits exn.splits)
  then show ?thesis using fe mem mx hs by metis
qed

theorem reference_record_latest_witness:
  "\<exists>e. first_entry (all_records [older, newer]) = Inr e \<and> e \<in> set [older, newer]
           \<and> (\<forall>x\<in>set [older, newer]. sent_at x \<le> sent_at e)
           \<and> (\<exists>calls. export_calls (snd (form_export current_env contact_admin contact_request stored_world)) = calls
                 \<and> calls \<noteq> []
                 \<and> (\<forall>c\<in>set calls. kw_headers (snd c) = build_headers msgid (get_form_data e)))"
proof -
  have v: "is_valid (bind_form contact_admin contact_request)"
    by (simp add: bind_contact contact_form_def)
  have q: "all_records [older, newer] = get_queryset (bind_form contact_admin contact_request) (records stored_world)"
    by (simp add: bind_contact contact_form_def stored_world_def)
  have n: "rows (all_records [older, newer]) \<noteq> []"
    by (simp add: all_records_def)
  have ec: "export_calls stored_world = []"
    by (simp add: stored_world_def)
  have r: "rows (all_records [older, newer]) = [older, newer]"
    by (simp add: all_records_def)
  have u: "ugettext current_env = msgid" by (simp add: current_env_def)
  show ?thesis
    using reference_record_latest[OF v q n, of current_env] unfolding ec r u by simp
qed

text \<open>
  Claim C9. A field at position \<open>p\<close> whose column header is disambiguated (differs from
  its label \<open>L\<close>) is filed under that header with the accessor \<open>clean_data L p\<close>. No
  later iteration replaces it, nor do the trailing columns unless a translated name equals
  the header, which the untranslated names never do. The accessor compares with the
  original label and not with the header: for a submission whose field at position \<open>p\<close>
  carries the label \<open>L\<close> it returns that field's value; for one whose field there
  carries the header text, or any label other than \<open>L\<close>, or that has no field there,
  it returns the empty string.
\<close>

theorem disambiguated_accessor:
  assumes "p < length flds" and "column_header flds p \<noteq> label (flds ! p)"
  shows "map_of (snd (header_loop flds)) (column_header flds p)
           = Some (Callable (clean_data (label (flds ! p)) p))
       \<and> (tr ''Language'' \<noteq> column_header flds p
            \<and> tr ''Submitted on'' \<noteq> column_header flds p
          \<longrightarrow> map_of (build_headers tr flds) (column_header flds p)
                = Some (Callable (clean_data (label (flds ! p)) p)))
       \<and> map_of (build_headers msgid flds) (column_header flds p)
           = Some (Callable (clean_data (label (flds ! p)) p))
       \<and> (p < length (get_form_data obj) \<and> label (get_form_data obj ! p) = label (flds ! p)
          \<longrightarrow> clean_data (label (flds ! p)) p obj = Inr (val (get_form_data obj ! p)))
       \<and> (p < length (get_form_data obj) \<and> label (get_form_data obj ! p) = column_header flds p
          \<longrightarrow> clean_data (label (flds ! p)) p obj = Inr '''')
       \<and> clean_data (label (flds ! p)) p obj
           = Inr (if p < length (get_form_data obj)
                     \<and> label (get_form_data obj ! p) = label (flds ! p)
                  then val (get_form_data obj ! p) else '''')"
proof -
  let ?L = "label (flds ! p)"
  obtain occ hs where st: "header_loop (take p flds) = (occ, hs)"
    by (cases "header_loop (take p flds)")
  have c: "contains hs ?L"
    using assms(2) st by (simp add: column_header_eq split: if_splits)
  let ?c = "dd_getitem occ ?L + 1"
  let ?acc = "Callable (clean_data ?L p)"
  have ch: "column_header flds p = format_label ?L ?c"
    using c st by (simp add: column_header_eq)
  have step: "header_step (p, flds ! p) (occ, hs) = (occ(?L \<mapsto> ?c), setitem hs (format_label ?L ?c) ?acc)"
    using c by (simp add: header_step_eq)
  have 1: "map_of (setitem hs (format_label ?L ?c) ?acc) (format_label ?L ?c) = Some ?acc"
    by (simp add: map_of_setitem)
  have 2: "?c \<le> dd_getitem (occ(?L \<mapsto> ?c)) ?L"
    by (simp add: dd_getitem_upd)
  have a: "map_of (snd (header_loop flds)) (column_header flds p) = Some ?acc"
    unfolding loop_whole[OF assms(1)] st step ch
    by (rule loop_keeps_generated[OF 1 2])
  have "msgid ''Language'' \<noteq> format_label ?L ?c" "msgid ''Submitted on'' \<noteq> format_label ?L ?c"
    using generated_not_trailing[of ?L ?c] by (auto simp: msgid_def)
  then have b: "map_of (build_headers msgid flds) (column_header flds p) = Some ?acc"
    using a map_of_build_headers[of msgid "column_header flds p" flds] unfolding ch by simp
  have d: "p < length (get_form_data obj) \<and> label (get_form_data obj ! p) = column_header flds p
          \<longrightarrow> clean_data ?L p obj = Inr ''''"
    using assms(2) by (simp add: clean_data_eq)
  show ?thesis
    using a b d map_of_build_headers[of tr "column_header flds p" flds] clean_data_eq[of ?L p obj]
    by simp
qed

theorem disambiguated_accessor_witness:
  "map_of (snd (header_loop dup_fields)) ''A 2'' = Some (Callable (clean_data ''A'' 2))
   \<and> map_of (build_headers msgid dup_fields) ''A 2'' = Some (Callable (clean_data ''A'' 2))
   \<and> clean_data ''A'' 2 dup_submission = Inr ''3''
   \<and> clean_data ''A'' 2 renamed_submission = Inr ''''"
proof -
  have 1: "2 < length dup_fields" by (simp add: dup_fields_def)
  have k: "column_header dup_fields 2 = ''A 2''" by (simp add: dup_fields_def loop_eval)
  have l: "label (dup_fields ! 2) = ''A''" by (simp add: dup_fields_def)
  have 2: "column_header dup_fields 2 \<noteq> label (dup_fields ! 2)" unfolding k l by simp
  have o: "get_form_data dup_submission = dup_fields" by (simp add: dup_submission_def)
  have v: "val (dup_fields ! 2) = ''3''" by (simp add: dup_fields_def)
  have r: "2 < length (get_form_data renamed_submission)"
          "label (get_form_data renamed_submission ! 2) = ''A 2''"
    by (simp_all add: renamed_submission_def)
  have x: "clean_data ''A'' 2 renamed_submission = Inr ''''"
    using disambiguated_accessor[OF 1 2, of msgid renamed_submission] r unfolding k l by blast
  have y: "map_of (snd (header_loop dup_fields)) ''A 2'' = Some (Callable (clean_data ''A'' 2))
   \<and> map_of (build_headers msgid dup_fields) ''A 2'' = Some (Callable (clean_data ''A'' 2))
   \<and> clean_data ''A'' 2 dup_submission = Inr ''3''"
    using disambiguated_accessor[OF 1 2, of msgid dup_submission] 1
    unfolding k l o v by (simp add: msgid_def)
  show ?thesis using x y by blast
qed

text \<open>
  Claim C10. With a valid filter form, a queryset of at least one record and either
  variant of the export view, \<open>form_export\<close> returns the response of the export call:
  its content type is that of \<open>xls\<close>, and its attachment is named after the file
  name of the filter form, with the extension \<open>xls\<close>, hence not empty.
\<close>

theorem export_response_xls:
  assumes "is_valid (bind_form self request)"
      and "rows (get_queryset (bind_form self request) (records w)) \<noteq> []"
      and "export env = tablib_export v"
  shows "\<exists>r. fst (form_export env self request w) = Inr (Export_response r)
           \<and> content_type r = ''application/vnd.ms-excel''
           \<and> attachment_filename r = get_filename (bind_form self request) @ ''.xls''
           \<and> attachment_filename r \<noteq> []"
proof -
  let ?entries = "get_queryset (bind_form self request) (records w)"
  let ?e = "hd (sort_key (\<lambda>e. - sent_at e) (rows ?entries))"
  have fe: "first_entry ?entries = Inr ?e" by (rule first_entry_hd[OF assms(2)])
  let ?args = "export_kwargs env request ?entries (get_filename (bind_form self request)) ?e"
  let ?r = "\<lparr>content_type = ''application/vnd.ms-excel'',
             attachment_filename = kw_filename ?args @ ''.xls''\<rparr>"
  have t: "fst (try_export env ?args w) = Inr ?r"
    by (rule tablib_try_export[OF assms(3)])
  have fn: "kw_filename ?args = get_filename (bind_form self request)"
    by (simp add: export_kwargs_def Let_def)
  have "fst (form_export env self request w) = Inr (Export_response ?r)"
    unfolding form_export_entries[OF assms(1,2) fe] using t
    by (cases "try_export env ?args w") auto
  then show ?thesis using fn by (intro exI[of _ ?r]) simp
qed

theorem export_response_xls_witness:
  "fst (form_export (tablib_env Newer) contact_admin contact_request stored_world)
     = Inr (Export_response \<lparr>content_type = ''application/vnd.ms-excel'',
                              attachment_filename = ''export-en-contact.xls''\<rparr>)
   \<and> fst (form_export (tablib_env Legacy) contact_admin contact_request stored_world)
     = Inr (Export_response \<lparr>content_type = ''application/vnd.ms-excel'',
                              attachment_filename = ''export-en-contact.xls''\<rparr>)"
proof -
  have v: "is_valid (bind_form contact_admin contact_request)"
    by (simp add: bind_contact contact_form_def)
  have n: "rows (get_queryset (bind_form contact_admin contact_request) (records stored_world)) \<noteq> []"
    by (simp add: bind_contact contact_form_def stored_world_def all_records_def)
  have fn: "get_filename (bind_form contact_admin contact_request) = ''export-en-contact''"
    by (simp add: bind_contact contact_form_def)
  have e: "export (tablib_env Newer) = tablib_export Newer" "export (tablib_env Legacy) = tablib_export Legacy"
    by (simp_all add: tablib_env_def)
  show ?thesis
    using export_response_xls[OF v n e(1)] export_response_xls[OF v n e(2)]
    unfolding fn by auto
qed

end
